theory Spec2Isabelle
  imports Complex_Main "HOL-Library.AList"
begin

section \<open>The crypto ETL pipeline of \<^verbatim>\<open>etl.py\<close>\<close>

text \<open>
  The pipeline works on pandas data frames. A data frame is modelled as the ordered list
  of its columns, each a pair of the column's name and its cells. Floating-point
  arithmetic is the interpreter's and numpy's, not this repository's: the product of two
  floats, the rounding to 8 decimals and the parsing done by \<^verbatim>\<open>float(...)\<close> are taken
  as parameters, and every theorem holds for all of them.

  Python's \<^verbatim>\<open>lower()\<close> and \<^verbatim>\<open>upper()\<close> follow Unicode. The functions \<open>lower\<close> and
  \<open>upper\<close> below change the ASCII letters only, so they are Python's on ASCII text, and
  \<open>transform\<close> is the program run on such text. For currency names of any text
  \<open>transform_with\<close> takes the case mapping as a parameter; at the ASCII mapping it is
  \<open>transform\<close>.
\<close>

subsection \<open>Strings\<close>

definition is_upper :: "char \<Rightarrow> bool" where
  "is_upper c = (65 \<le> (of_char c :: nat) \<and> (of_char c :: nat) \<le> 90)"

definition is_lower :: "char \<Rightarrow> bool" where
  "is_lower c = (97 \<le> (of_char c :: nat) \<and> (of_char c :: nat) \<le> 122)"

definition lower_char :: "char \<Rightarrow> char" where
  "lower_char c = (if is_upper c then char_of ((of_char c :: nat) + 32) else c)"

definition upper_char :: "char \<Rightarrow> char" where
  "upper_char c = (if is_lower c then char_of ((of_char c :: nat) - 32) else c)"

definition lower :: "string \<Rightarrow> string" where
  "lower s = map lower_char s"

definition upper :: "string \<Rightarrow> string" where
  "upper s = map upper_char s"

fun starts_with :: "string \<Rightarrow> string \<Rightarrow> bool" where
  "starts_with [] s = True"
| "starts_with (p # ps) [] = False"
| "starts_with (p # ps) (c # cs) = (p = c \<and> starts_with ps cs)"

text \<open>\<^verbatim>\<open>sub in s\<close> on Python strings.\<close>

fun contains :: "string \<Rightarrow> string \<Rightarrow> bool" where
  "contains sub [] = starts_with sub []"
| "contains sub (c # cs) = (starts_with sub (c # cs) \<or> contains sub cs)"

subsection \<open>Data frames\<close>

text \<open>
  A column is numeric (dtype float64, a missing price being the float NaN) or holds
  Python objects, here strings, as the identifier column does.
\<close>

datatype 'f column = NumCol "'f list" | ObjCol "string list"

type_synonym 'f table = "(string \<times> 'f column) list"

fun col_len :: "'f column \<Rightarrow> nat" where
  "col_len (NumCol xs) = length xs"
| "col_len (ObjCol xs) = length xs"

definition columns :: "'f table \<Rightarrow> string list" where
  "columns df = map fst df"

text \<open>The number of rows; every column of a data frame has this length.\<close>

fun nrows :: "'f table \<Rightarrow> nat" where
  "nrows [] = 0"
| "nrows ((n, c) # df) = col_len c"

text \<open>\<^verbatim>\<open>df.empty\<close>: no column or no row.\<close>

definition df_empty :: "'f table \<Rightarrow> bool" where
  "df_empty df = (df = [] \<or> nrows df = 0)"

text \<open>
  \<^verbatim>\<open>df[name] = col\<close> replaces the column of that name where it stands, and appends the
  column when the name is new.
\<close>

definition setitem :: "string \<Rightarrow> 'f column \<Rightarrow> 'f table \<Rightarrow> 'f table" where
  "setitem name col df = AList.update name col df"

datatype error = AttributeError | TypeError | KeyError

text \<open>\<^verbatim>\<open>df[name]\<close>.\<close>

definition getitem :: "'f table \<Rightarrow> string \<Rightarrow> error + 'f column" where
  "getitem df name = (case map_of df name of None \<Rightarrow> Inl KeyError | Some col \<Rightarrow> Inr col)"

subsection \<open>Numerics, clock and log\<close>

record 'f numerics =
  fmul :: "'f \<Rightarrow> 'f \<Rightarrow> 'f"
  round8 :: "'f \<Rightarrow> 'f"
  parse_float :: "string \<Rightarrow> 'f option"

text \<open>
  \<^verbatim>\<open>series * rate\<close>: elementwise on a numeric column; on a column of strings Python
  raises TypeError (the column of a non-empty frame is not empty).
\<close>

fun mul_col :: "'f numerics \<Rightarrow> 'f column \<Rightarrow> 'f \<Rightarrow> error + 'f column" where
  "mul_col N (NumCol xs) r = Inr (NumCol (map (\<lambda>x. fmul N x r) xs))"
| "mul_col N (ObjCol xs) r = Inl TypeError"

text \<open>\<^verbatim>\<open>series.round(8)\<close>.\<close>

fun round_col :: "'f numerics \<Rightarrow> 'f column \<Rightarrow> 'f column" where
  "round_col N (NumCol xs) = NumCol (map (round8 N) xs)"
| "round_col N (ObjCol xs) = ObjCol xs"

text \<open>
  The module binds \<^verbatim>\<open>ZoneInfo\<close> to the class, or to \<^verbatim>\<open>None\<close> when the import fails.
  The clock gives the two readings \<^verbatim>\<open>datetime.now(ZoneInfo("Asia/Karachi")).isoformat()\<close>
  and \<^verbatim>\<open>datetime.now().isoformat()\<close>.
\<close>

record clock =
  zoneinfo :: bool
  now_karachi :: string
  now_local :: string

definition now_iso :: "clock \<Rightarrow> string" where
  "now_iso clk = (if zoneinfo clk then now_karachi clk else now_local clk)"

text \<open>
  The log file, one message a line. The time prefix of each line, the creation of the
  directory and the echo on standard output are left out.
\<close>

type_synonym log = "string list"

definition log_progress :: "string \<Rightarrow> log \<Rightarrow> log" where
  "log_progress message lg = lg @ [message]"

subsection \<open>The exchange-rate file\<close>

text \<open>
  What \<^verbatim>\<open>pd.read_csv(csv_path, index_col=0).to_dict()['Rate']\<close> gives: a dictionary from
  index labels to cells of the Rate column, in file order. pandas reads a label as a
  string, as an integer when the whole index is numeric, or as NaN when it is blank; a
  cell is a number when the whole column is numeric and the text of the cell otherwise.
\<close>

datatype label = LStr string | LInt int | LNaN

datatype 'f rate_value = RNum 'f | RStr string

datatype 'f rate_file =
    NoFile
  | ReadError string
  | RateColumn "(label \<times> 'f rate_value) list"

text \<open>\<^verbatim>\<open>{k.lower(): v for k, v in rates.items()}\<close>; only a string has \<^verbatim>\<open>lower\<close>.\<close>

fun lower_keys ::
  "(label \<times> 'f rate_value) list \<Rightarrow> (string \<times> 'f rate_value) list
     \<Rightarrow> error + (string \<times> 'f rate_value) list" where
  "lower_keys [] acc = Inr acc"
| "lower_keys ((LStr s, v) # rest) acc = lower_keys rest (AList.update (lower s) v acc)"
| "lower_keys ((LInt i, v) # rest) acc = Inl AttributeError"
| "lower_keys ((LNaN, v) # rest) acc = Inl AttributeError"

text \<open>\<^verbatim>\<open>float(rate)\<close>, \<^verbatim>\<open>None\<close> when it raises.\<close>

fun to_float :: "'f numerics \<Rightarrow> 'f rate_value \<Rightarrow> 'f option" where
  "to_float N (RNum x) = Some x"
| "to_float N (RStr s) = parse_float N s"

subsection \<open>Transform\<close>

text \<open>The search for the PKR column, lines 83 to 87.\<close>

fun find_pkr_col :: "string list \<Rightarrow> string option" where
  "find_pkr_col [] = None"
| "find_pkr_col (c # cs) =
     (if lower c = ''pkr'' \<or> contains ''pkr'' (lower c) then Some c else find_pkr_col cs)"

definition new_col :: "string \<Rightarrow> string" where
  "new_col cur = ''price_in_'' @ upper cur"

definition skip_message :: "string \<Rightarrow> string" where
  "skip_message cur = ''Transform: skipping invalid rate for '' @ cur"

text \<open>The conversion loop, lines 94 to 102.\<close>

fun convert ::
  "'f numerics \<Rightarrow> string \<Rightarrow> (string \<times> 'f rate_value) list \<Rightarrow> 'f table \<Rightarrow> log
     \<Rightarrow> (error + 'f table) \<times> log" where
  "convert N pkr_col [] df lg = (Inr df, lg)"
| "convert N pkr_col ((cur, rate) # rest) df lg =
     (case to_float N rate of
        None \<Rightarrow> convert N pkr_col rest df (log_progress (skip_message cur) lg)
      | Some r \<Rightarrow>
          (case getitem df pkr_col of
             Inl e \<Rightarrow> (Inl e, lg)
           | Inr base \<Rightarrow>
               (case mul_col N base r of
                  Inl e \<Rightarrow> (Inl e, lg)
                | Inr product \<Rightarrow>
                    convert N pkr_col rest (setitem (new_col cur) (round_col N product) df) lg)))"

definition transform ::
  "'f numerics \<Rightarrow> clock \<Rightarrow> string \<Rightarrow> 'f rate_file \<Rightarrow> 'f table \<Rightarrow> log
     \<Rightarrow> (error + 'f table) \<times> log" where
  "transform N clk csv_path file df lg0 =
     (let lg = log_progress ''Transform: started'' lg0 in
      if df_empty df then
        (Inr df, log_progress ''Transform: aborted (empty DataFrame)'' lg)
      else
        (case file of
           NoFile \<Rightarrow>
             (Inr df, log_progress (''Transform: exchange CSV not found at '' @ csv_path) lg)
         | ReadError e \<Rightarrow>
             (Inr df, log_progress (''Transform: failed to read CSV - '' @ e) lg)
         | RateColumn raw \<Rightarrow>
             (case lower_keys raw [] of
                Inl e \<Rightarrow> (Inl e, lg)
              | Inr rates \<Rightarrow>
                  (case find_pkr_col (columns df) of
                     None \<Rightarrow>
                       (Inr df, log_progress ''Transform: PKR column not found in DataFrame'' lg)
                   | Some pkr_col \<Rightarrow>
                       (case convert N pkr_col rates df lg of
                          (Inl e, lg2) \<Rightarrow> (Inl e, lg2)
                        | (Inr df2, lg2) \<Rightarrow>
                            (Inr (setitem ''last_updated''
                                    (ObjCol (replicate (nrows df2) (now_iso clk))) df2),
                             log_progress ''Transform: completed'' lg2))))))"

subsection \<open>Extract, load and the whole run\<close>

text \<open>
  The outcome of the request in \<^verbatim>\<open>extract\<close>: the frame built from the response, or the
  text of the exception.
\<close>

datatype 'f fetch = Fetched "'f table" | FetchFailed string

definition extract_df :: "'f fetch \<Rightarrow> log \<Rightarrow> 'f table \<times> log" where
  "extract_df resp lg0 =
     (let lg = log_progress ''Extract: started'' lg0 in
      case resp of
        Fetched df \<Rightarrow> (df, log_progress ''Extract: completed successfully'' lg)
      | FetchFailed e \<Rightarrow> ([], log_progress (''Extract: failed - '' @ e) lg))"

text \<open>
  The database maps a table name to the frame stored under it. The engine either
  replaces the table or raises, leaving the database in some state of its own choosing.
\<close>

type_synonym 'f store = "(string \<times> 'f table) list"

datatype 'f engine = Writes | Raises string "'f store"

definition load_to_sqlite ::
  "'f engine \<Rightarrow> string \<Rightarrow> string \<Rightarrow> 'f table \<Rightarrow> 'f store \<Rightarrow> log \<Rightarrow> 'f store \<times> log" where
  "load_to_sqlite eng db_name table_name df db lg0 =
     (let lg = log_progress ''Load: started'' lg0 in
      if df_empty df then (db, log_progress ''Load: aborted (empty DataFrame)'' lg)
      else
        (case eng of
           Writes \<Rightarrow>
             (AList.update table_name df db,
              log_progress (''Load: completed. Data written to '' @ db_name @ '' -> '' @ table_name) lg)
         | Raises e db' \<Rightarrow> (db', log_progress (''Load: failed - '' @ e) lg)))"

definition EXCHANGE_CSV :: string where
  "EXCHANGE_CSV = ''./input/exchange_rate.csv''"

definition DB_NAME :: string where
  "DB_NAME = ''crypto_data.db''"

definition TABLE_NAME :: string where
  "TABLE_NAME = ''crypto_prices''"

definition run_etl ::
  "'f numerics \<Rightarrow> clock \<Rightarrow> 'f fetch \<Rightarrow> 'f rate_file \<Rightarrow> 'f engine \<Rightarrow> 'f store \<Rightarrow> log
     \<Rightarrow> (error + 'f table) \<times> 'f store \<times> log" where
  "run_etl N clk resp file eng db lg0 =
     (case extract_df resp lg0 of
        (df, lg1) \<Rightarrow>
          (case transform N clk EXCHANGE_CSV file df lg1 of
             (Inl e, lg2) \<Rightarrow> (Inl e, db, lg2)
           | (Inr df2, lg2) \<Rightarrow>
               (case load_to_sqlite eng DB_NAME TABLE_NAME df2 db lg2 of
                  (db', lg3) \<Rightarrow> (Inr df2, db', lg3))))"

subsection \<open>Quote tables and the vocabulary of the properties\<close>

text \<open>
  The frame that \<^verbatim>\<open>extract\<close> builds has the identifier column \<^verbatim>\<open>crypto\<close> and one
  numeric column for each currency code of the response; the codes are requested in
  lowercase (line 40), and a code is a non-empty word of the letters a to z. The names
  of a frame's columns are distinct and its columns have one length.
\<close>

definition is_code :: "string \<Rightarrow> bool" where
  "is_code s = (s \<noteq> [] \<and> list_all is_lower s)"

fun is_num :: "'f column \<Rightarrow> bool" where
  "is_num (NumCol xs) = True"
| "is_num (ObjCol xs) = False"

definition quote_table :: "'f table \<Rightarrow> bool" where
  "quote_table df =
     (distinct (columns df) \<and>
      list_all (\<lambda>(n, c). is_code n \<and> col_len c = nrows df \<and> (n = ''crypto'' \<or> is_num c)) df)"

text \<open>A rate file whose labels are all strings, as currency names are.\<close>

fun is_str :: "label \<Rightarrow> bool" where
  "is_str (LStr s) = True"
| "is_str (LInt i) = False"
| "is_str LNaN = False"

definition rate_table :: "(label \<times> 'f rate_value) list \<Rightarrow> bool" where
  "rate_table raw = list_all (\<lambda>(k, v). is_str k) raw"

text \<open>The test of line 85: the name is, or contains, \<^verbatim>\<open>pkr\<close> in any case.\<close>

definition names_pkr :: "string \<Rightarrow> bool" where
  "names_pkr c = (lower c = ''pkr'' \<or> contains ''pkr'' (lower c))"

text \<open>
  The column that line 102 computes from the cells \<open>xs\<close> of the PKR column and a
  multiplier, the columns that the loop computes for a dictionary of rates (one for each
  entry whose rate is a float), and the currencies it skips.
\<close>

definition derived :: "'f numerics \<Rightarrow> 'f list \<Rightarrow> 'f \<Rightarrow> 'f column" where
  "derived N xs m = NumCol (map (\<lambda>x. round8 N (fmul N x m)) xs)"

fun new_columns :: "'f numerics \<Rightarrow> 'f list \<Rightarrow> (string \<times> 'f rate_value) list \<Rightarrow> 'f table" where
  "new_columns N xs [] = []"
| "new_columns N xs ((cur, v) # rest) =
     (case to_float N v of
        None \<Rightarrow> new_columns N xs rest
      | Some m \<Rightarrow> (new_col cur, derived N xs m) # new_columns N xs rest)"

fun skipped :: "'f numerics \<Rightarrow> (string \<times> 'f rate_value) list \<Rightarrow> string list" where
  "skipped N [] = []"
| "skipped N ((cur, v) # rest) =
     (case to_float N v of
        None \<Rightarrow> cur # skipped N rest
      | Some m \<Rightarrow> skipped N rest)"

definition set_all :: "'f table \<Rightarrow> 'f table \<Rightarrow> 'f table" where
  "set_all news df = fold (\<lambda>(n, c). setitem n c) news df"

text \<open>The column of time stamps of a run, for a frame of \<open>n\<close> rows.\<close>

definition stamp :: "clock \<Rightarrow> nat \<Rightarrow> string \<times> 'f column" where
  "stamp clk n = (''last_updated'', ObjCol (replicate n (now_iso clk)))"

text \<open>A frame without its column \<^verbatim>\<open>last_updated\<close>.\<close>

definition drop_stamp :: "'f table \<Rightarrow> 'f table" where
  "drop_stamp df = filter (\<lambda>(n, c). n \<noteq> ''last_updated'') df"

text \<open>
  \<^verbatim>\<open>transform(transform(df))\<close>, the two calls reading the clock at different times; an
  exception of the first call ends the run.
\<close>

definition transform_twice ::
  "'f numerics \<Rightarrow> clock \<Rightarrow> clock \<Rightarrow> string \<Rightarrow> 'f rate_file \<Rightarrow> 'f table \<Rightarrow> log
     \<Rightarrow> (error + 'f table) \<times> log" where
  "transform_twice N clk1 clk2 csv_path file df lg =
     (case transform N clk1 csv_path file df lg of
        (Inl e, lg1) \<Rightarrow> (Inl e, lg1)
      | (Inr df1, lg1) \<Rightarrow> transform N clk2 csv_path file df1 lg1)"

subsection \<open>The case mapping as a parameter\<close>

text \<open>
  \<^verbatim>\<open>str.lower\<close> and \<^verbatim>\<open>str.upper\<close> as the interpreter has them, and the functions of
  \<^verbatim>\<open>transform\<close> with these in place of \<open>lower\<close> and \<open>upper\<close>.
\<close>

record casing =
  str_lower :: "string \<Rightarrow> string"
  str_upper :: "string \<Rightarrow> string"

definition ascii_casing :: casing where
  "ascii_casing = \<lparr> str_lower = lower, str_upper = upper \<rparr>"

fun lower_keys_with ::
  "casing \<Rightarrow> (label \<times> 'f rate_value) list \<Rightarrow> (string \<times> 'f rate_value) list
     \<Rightarrow> error + (string \<times> 'f rate_value) list" where
  "lower_keys_with C [] acc = Inr acc"
| "lower_keys_with C ((LStr s, v) # rest) acc =
     lower_keys_with C rest (AList.update (str_lower C s) v acc)"
| "lower_keys_with C ((LInt i, v) # rest) acc = Inl AttributeError"
| "lower_keys_with C ((LNaN, v) # rest) acc = Inl AttributeError"

fun find_pkr_col_with :: "casing \<Rightarrow> string list \<Rightarrow> string option" where
  "find_pkr_col_with C [] = None"
| "find_pkr_col_with C (c # cs) =
     (if str_lower C c = ''pkr'' \<or> contains ''pkr'' (str_lower C c) then Some c
      else find_pkr_col_with C cs)"

definition new_col_with :: "casing \<Rightarrow> string \<Rightarrow> string" where
  "new_col_with C cur = ''price_in_'' @ str_upper C cur"

fun convert_with ::
  "casing \<Rightarrow> 'f numerics \<Rightarrow> string \<Rightarrow> (string \<times> 'f rate_value) list \<Rightarrow> 'f table \<Rightarrow> log
     \<Rightarrow> (error + 'f table) \<times> log" where
  "convert_with C N pkr_col [] df lg = (Inr df, lg)"
| "convert_with C N pkr_col ((cur, rate) # rest) df lg =
     (case to_float N rate of
        None \<Rightarrow> convert_with C N pkr_col rest df (log_progress (skip_message cur) lg)
      | Some r \<Rightarrow>
          (case getitem df pkr_col of
             Inl e \<Rightarrow> (Inl e, lg)
           | Inr base \<Rightarrow>
               (case mul_col N base r of
                  Inl e \<Rightarrow> (Inl e, lg)
                | Inr product \<Rightarrow>
                    convert_with C N pkr_col rest
                      (setitem (new_col_with C cur) (round_col N product) df) lg)))"

definition transform_with ::
  "casing \<Rightarrow> 'f numerics \<Rightarrow> clock \<Rightarrow> string \<Rightarrow> 'f rate_file \<Rightarrow> 'f table \<Rightarrow> log
     \<Rightarrow> (error + 'f table) \<times> log" where
  "transform_with C N clk csv_path file df lg0 =
     (let lg = log_progress ''Transform: started'' lg0 in
      if df_empty df then
        (Inr df, log_progress ''Transform: aborted (empty DataFrame)'' lg)
      else
        (case file of
           NoFile \<Rightarrow>
             (Inr df, log_progress (''Transform: exchange CSV not found at '' @ csv_path) lg)
         | ReadError e \<Rightarrow>
             (Inr df, log_progress (''Transform: failed to read CSV - '' @ e) lg)
         | RateColumn raw \<Rightarrow>
             (case lower_keys_with C raw [] of
                Inl e \<Rightarrow> (Inl e, lg)
              | Inr rates \<Rightarrow>
                  (case find_pkr_col_with C (columns df) of
                     None \<Rightarrow>
                       (Inr df, log_progress ''Transform: PKR column not found in DataFrame'' lg)
                   | Some pkr_col \<Rightarrow>
                       (case convert_with C N pkr_col rates df lg of
                          (Inl e, lg2) \<Rightarrow> (Inl e, lg2)
                        | (Inr df2, lg2) \<Rightarrow>
                            (Inr (setitem ''last_updated''
                                    (ObjCol (replicate (nrows df2) (now_iso clk))) df2),
                             log_progress ''Transform: completed'' lg2))))))"

text \<open>
  A case mapping that leaves every word of the letters a to z as it is, as Python's does;
  the test of line 85; the columns that the loop computes; the currencies it converts.
\<close>

definition fixes_codes :: "casing \<Rightarrow> bool" where
  "fixes_codes C = (\<forall>s. is_code s \<longrightarrow> str_lower C s = s)"






subsection \<open>A decimal instance of the numerics and the frames of the examples\<close>

text \<open>
  To run the model on examples the numerics are instantiated with exact decimal
  arithmetic on rationals: the exact product, rounding half to even at the eighth
  decimal, and a parser of plain decimal numerals.
\<close>

definition round_half_even :: "rat \<Rightarrow> int" where
  "round_half_even x =
     (let f = \<lfloor>x\<rfloor>; d = x - of_int f
      in if d < 1 / 2 then f else if 1 / 2 < d then f + 1 else if even f then f else f + 1)"

fun digits_value :: "string \<Rightarrow> nat \<Rightarrow> nat option" where
  "digits_value [] acc = Some acc"
| "digits_value (c # cs) acc =
     (if 48 \<le> (of_char c :: nat) \<and> (of_char c :: nat) \<le> 57
      then digits_value cs (10 * acc + ((of_char c :: nat) - 48)) else None)"

definition parse_unsigned :: "string \<Rightarrow> rat option" where
  "parse_unsigned s =
     (let whole = takeWhile (\<lambda>c. c \<noteq> CHR ''.'') s;
          frac = drop 1 (dropWhile (\<lambda>c. c \<noteq> CHR ''.'') s)
      in if whole @ frac = [] then None
         else (case (digits_value whole 0, digits_value frac 0) of
                 (Some w, Some f) \<Rightarrow> Some (of_nat w + of_nat f / 10 ^ length frac)
               | _ \<Rightarrow> None))"

fun parse_decimal :: "string \<Rightarrow> rat option" where
  "parse_decimal [] = None"
| "parse_decimal (c # cs) =
     (if c = CHR ''-'' then map_option uminus (parse_unsigned cs) else parse_unsigned (c # cs))"

definition decimal :: "rat numerics" where
  "decimal = \<lparr> fmul = (*), round8 = (\<lambda>x. of_int (round_half_even (x * 10 ^ 8)) / 10 ^ 8),
               parse_float = parse_decimal \<rparr>"

definition karachi_clock :: clock where
  "karachi_clock = \<lparr> zoneinfo = True, now_karachi = ''2024-05-01T17:00:00.000000+05:00'',
                     now_local = ''2024-05-01T12:00:00.000000'' \<rparr>"

definition naive_clock :: clock where
  "naive_clock = \<lparr> zoneinfo = False, now_karachi = ''2024-05-01T17:00:00.000000+05:00'',
                   now_local = ''2024-05-01T12:00:00.000000'' \<rparr>"

text \<open>The quote table of the end-to-end scenario: bitcoin at 1000000 PKR.\<close>

definition quotes :: "rat table" where
  "quotes = [(''crypto'', ObjCol [''bitcoin'']), (''pkr'', NumCol [1000000])]"

text \<open>The same table before any row arrived, and a table without a PKR column.\<close>

definition no_rows :: "rat table" where
  "no_rows = [(''crypto'', ObjCol []), (''pkr'', NumCol [])]"



section \<open>Properties\<close>

subsection \<open>Case of strings\<close>

lemma lower_char_idem3: "lower_char (upper_char (lower_char c)) = lower_char c"
  unfolding lower_char_def upper_char_def is_upper_def is_lower_def
  by (auto simp: of_char_eq_iff[symmetric] simp del: of_char_eq_iff)

lemma lower_upper_lower: "lower (upper (lower s)) = lower s"
  by (simp add: lower_def upper_def lower_char_idem3)

lemma new_col_inj: "new_col (lower a) = new_col (lower b) \<Longrightarrow> lower a = lower b"
proof -
  assume "new_col (lower a) = new_col (lower b)"
  then have "upper (lower a) = upper (lower b)" by (simp add: new_col_def)
  then have "lower (upper (lower a)) = lower (upper (lower b))" by simp
  then show ?thesis by (simp only: lower_upper_lower)
qed

lemma underscore_not_lower: "\<not> is_lower (CHR ''_'')"
  by (simp add: is_lower_def)

lemma is_code_no_underscore: "is_code n \<Longrightarrow> CHR ''_'' \<notin> set n"
  using underscore_not_lower by (auto simp: is_code_def list_all_iff)

lemma is_code_not_new_col: "is_code n \<Longrightarrow> n \<noteq> new_col cur"
  using is_code_no_underscore[of n] by (auto simp: new_col_def)

lemma is_code_not_last_updated: "is_code n \<Longrightarrow> n \<noteq> ''last_updated''"
  using is_code_no_underscore[of n] by auto

subsection \<open>Assignments to fresh and to present columns\<close>

lemma setitem_fresh: "name \<notin> set (columns df) \<Longrightarrow> setitem name col df = df @ [(name, col)]"
  unfolding setitem_def columns_def by (induction df) auto

lemma setitem_same: "map_of df name = Some col \<Longrightarrow> setitem name col df = df"
  by (simp add: setitem_def update_triv)

lemma set_all_fresh:
  "distinct (columns news) \<Longrightarrow> set (columns news) \<inter> set (columns df) = {}
     \<Longrightarrow> set_all news df = df @ news"
proof (induction news arbitrary: df)
  case Nil
  then show ?case by (simp add: set_all_def)
next
  case (Cons p news)
  obtain n c where p: "p = (n, c)" by (cases p)
  from Cons.prems p have fresh: "n \<notin> set (columns df)" by (auto simp: columns_def)
  have "set_all (p # news) df = set_all news (setitem n c df)"
    by (simp add: set_all_def p)
  also have "\<dots> = set_all news (df @ [(n, c)])"
    by (simp add: setitem_fresh[OF fresh])
  also have "\<dots> = (df @ [(n, c)]) @ news"
    using Cons.prems p by (intro Cons.IH) (auto simp: columns_def)
  finally show ?case by (simp add: p)
qed

lemma set_all_same:
  "list_all (\<lambda>(n, c). map_of df n = Some c) news \<Longrightarrow> set_all news df = df"
  by (induction news) (auto simp: set_all_def setitem_same)


subsection \<open>The dictionary of rates\<close>

lemma lower_keys_ok: "rate_table raw \<Longrightarrow> \<exists>rates. lower_keys raw acc = Inr rates"
proof (induction raw arbitrary: acc)
  case Nil
  then show ?case by simp
next
  case (Cons e raw)
  obtain k v where e: "e = (k, v)" by (cases e)
  from Cons.prems e obtain s where k: "k = LStr s"
    by (cases k) (auto simp: rate_table_def)
  from Cons.prems have "rate_table raw" by (simp add: rate_table_def)
  then show ?case using Cons.IH by (simp add: e k)
qed

lemma lower_keys_distinct:
  "lower_keys raw acc = Inr rates \<Longrightarrow> distinct (map fst acc) \<Longrightarrow> distinct (map fst rates)"
proof (induction raw acc rule: lower_keys.induct)
  case (2 s v rest acc)
  then show ?case by (simp add: distinct_update)
qed auto

lemma lower_keys_lowered:
  "lower_keys raw acc = Inr rates \<Longrightarrow> fst ` set acc \<subseteq> range lower
     \<Longrightarrow> fst ` set rates \<subseteq> range lower"
proof (induction raw acc rule: lower_keys.induct)
  case (2 s v rest acc)
  have "fst ` set (AList.update (lower s) v acc) \<subseteq> range lower"
    using "2.prems"(2) by (auto simp: dom_update)
  with 2 show ?case by simp
qed auto

subsection \<open>The derived columns\<close>

lemma new_columns_origin:
  "(n, c) \<in> set (new_columns N xs rates) \<Longrightarrow> n \<in> new_col ` fst ` set rates"
  by (induction rates) (fastforce split: option.splits)+

lemma new_col_fresh:
  assumes "cur \<in> range lower" and "fst ` set rates \<subseteq> range lower"
    and "cur \<notin> fst ` set rates"
  shows "new_col cur \<notin> set (columns (new_columns N xs rates))"
proof
  assume "new_col cur \<in> set (columns (new_columns N xs rates))"
  then obtain c where "(new_col cur, c) \<in> set (new_columns N xs rates)"
    by (auto simp: columns_def)
  then have "new_col cur \<in> new_col ` fst ` set rates"
    by (rule new_columns_origin)
  then obtain k v where k: "(k, v) \<in> set rates" "new_col cur = new_col k"
    by auto
  from k(1) assms(2) have "k \<in> range lower" by force
  with assms(1) k(2) have "cur = k" by (auto dest: new_col_inj)
  with k(1) assms(3) show False by force
qed

lemma distinct_new_columns:
  "distinct (map fst rates) \<Longrightarrow> fst ` set rates \<subseteq> range lower
     \<Longrightarrow> distinct (columns (new_columns N xs rates))"
proof (induction rates)
  case Nil
  then show ?case by (simp add: columns_def)
next
  case (Cons e rates)
  obtain cur v where e: "e = (cur, v)" by (cases e)
  from Cons.prems have IH: "distinct (columns (new_columns N xs rates))"
    by (intro Cons.IH) auto
  from Cons.prems e have "new_col cur \<notin> set (columns (new_columns N xs rates))"
    by (intro new_col_fresh) auto
  with IH show ?case by (simp add: e columns_def split: option.splits)
qed

subsection \<open>The conversion loop\<close>

lemma map_of_setitem: "map_of (setitem n c df) = (map_of df)(n \<mapsto> c)"
  by (simp add: setitem_def update_conv')

lemma convert_numeric:
  "map_of df p = Some (NumCol xs) \<Longrightarrow> p \<notin> new_col ` fst ` set rates
     \<Longrightarrow> convert N p rates df lg =
          (Inr (set_all (new_columns N xs rates) df), lg @ map skip_message (skipped N rates))"
proof (induction rates arbitrary: df lg)
  case Nil
  then show ?case by (simp add: set_all_def)
next
  case (Cons e rates)
  obtain cur v where e: "e = (cur, v)" by (cases e)
  from Cons.prems(2) e have ne: "p \<noteq> new_col cur" and rest: "p \<notin> new_col ` fst ` set rates"
    by auto
  show ?case
  proof (cases "to_float N v")
    case None
    then show ?thesis
      using Cons.IH[OF Cons.prems(1) rest] by (simp add: e log_progress_def)
  next
    case (Some m)
    let ?df = "setitem (new_col cur) (derived N xs m) df"
    have base: "map_of ?df p = Some (NumCol xs)"
      using Cons.prems(1) ne by (simp add: map_of_setitem)
    have "convert N p (e # rates) df lg = convert N p rates ?df lg"
      using Cons.prems(1) Some by (simp add: e getitem_def derived_def o_def)
    also have "\<dots> = (Inr (set_all (new_columns N xs rates) ?df),
                      lg @ map skip_message (skipped N rates))"
      by (rule Cons.IH[OF base rest])
    finally show ?thesis by (simp add: e Some set_all_def)
  qed
qed


subsection \<open>The search for the PKR column\<close>

lemma find_pkr_col_Some:
  "find_pkr_col cs = Some p \<Longrightarrow> p \<in> set cs \<and> names_pkr p"
  by (induction cs) (auto simp: names_pkr_def split: if_splits)

lemma find_pkr_col_append:
  "find_pkr_col cs = Some p \<Longrightarrow> find_pkr_col (cs @ ds) = Some p"
  by (induction cs) (auto split: if_splits)

lemma crypto_not_pkr: "\<not> names_pkr ''crypto''"
  unfolding names_pkr_def by code_simp

subsection \<open>Quote tables\<close>

lemma quote_table_lookup:
  "quote_table df \<Longrightarrow> (n, c) \<in> set df \<Longrightarrow> map_of df n = Some c"
  by (simp add: quote_table_def columns_def)

lemma quote_table_base:
  assumes "quote_table df" and "find_pkr_col (columns df) = Some p"
  shows "\<exists>xs. map_of df p = Some (NumCol xs) \<and> length xs = nrows df"
proof -
  from assms(2) have mem: "p \<in> set (columns df)" and pkr: "names_pkr p"
    by (auto dest: find_pkr_col_Some)
  from mem obtain c where c: "(p, c) \<in> set df" by (auto simp: columns_def)
  from pkr crypto_not_pkr have "p \<noteq> ''crypto''" by auto
  with assms(1) c have "is_num c" and len: "col_len c = nrows df"
    by (auto simp: quote_table_def list_all_iff)
  then obtain xs where "c = NumCol xs" by (cases c) auto
  with c len quote_table_lookup[OF assms(1)] show ?thesis by auto
qed

lemma quote_table_columns: "quote_table df \<Longrightarrow> n \<in> set (columns df) \<Longrightarrow> is_code n"
  by (auto simp: quote_table_def list_all_iff columns_def)

lemma nrows_append: "df \<noteq> [] \<Longrightarrow> nrows (df @ extra) = nrows df"
  by (cases df) auto

lemma setitem_last:
  "name \<notin> set (columns df) \<Longrightarrow> setitem name col (df @ [(name, old)]) = df @ [(name, col)]"
  unfolding setitem_def columns_def by (induction df) auto

lemma new_columns_disjoint:
  "quote_table df \<Longrightarrow> set (columns (new_columns N xs rates)) \<inter> set (columns df) = {}"
proof -
  assume qt: "quote_table df"
  { fix n assume a: "n \<in> set (columns (new_columns N xs rates))" and b: "n \<in> set (columns df)"
    from a obtain c where "(n, c) \<in> set (new_columns N xs rates)" by (auto simp: columns_def)
    then have "n \<in> new_col ` fst ` set rates" by (rule new_columns_origin)
    moreover from qt b have "is_code n" by (rule quote_table_columns)
    ultimately have False using is_code_not_new_col by auto }
  then show ?thesis by auto
qed

lemma new_columns_not_stamp: "''last_updated'' \<notin> set (columns (new_columns N xs rates))"
proof
  assume "''last_updated'' \<in> set (columns (new_columns N xs rates))"
  then obtain c where "(''last_updated'', c) \<in> set (new_columns N xs rates)"
    by (auto simp: columns_def)
  then have "''last_updated'' \<in> new_col ` fst ` set rates" by (rule new_columns_origin)
  then show False by (auto simp: new_col_def)
qed

subsection \<open>Transform on a quote table\<close>

lemma transform_quote_table:
  assumes qt: "quote_table df" and ne: "\<not> df_empty df"
    and lk: "lower_keys raw [] = Inr rates"
    and fp: "find_pkr_col (columns df) = Some p"
    and base: "map_of df p = Some (NumCol xs)"
  shows "transform N clk path (RateColumn raw) df lg =
           (Inr (df @ new_columns N xs rates @ [stamp clk (nrows df)]),
            lg @ [''Transform: started''] @ map skip_message (skipped N rates)
               @ [''Transform: completed''])"
proof -
  let ?news = "new_columns N xs rates"
  have dist: "distinct (map fst rates)"
    using lower_keys_distinct[OF lk] by simp
  have low: "fst ` set rates \<subseteq> range lower"
    using lower_keys_lowered[OF lk] by simp
  from fp have "p \<in> set (columns df)" by (auto dest: find_pkr_col_Some)
  with qt have "is_code p" by (rule quote_table_columns)
  then have fresh: "p \<notin> new_col ` fst ` set rates"
    using is_code_not_new_col by auto
  have conv: "convert N p rates df (lg @ [''Transform: started'']) =
      (Inr (set_all ?news df), (lg @ [''Transform: started'']) @ map skip_message (skipped N rates))"
    by (rule convert_numeric[OF base fresh])
  have all: "set_all ?news df = df @ ?news"
    by (rule set_all_fresh[OF distinct_new_columns[OF dist low] new_columns_disjoint[OF qt]])
  from ne have nonempty: "df \<noteq> []" by (simp add: df_empty_def)
  have "''last_updated'' \<notin> set (columns df)"
    using quote_table_columns[OF qt] is_code_not_last_updated by blast
  then have "''last_updated'' \<notin> set (columns (df @ ?news))"
    using new_columns_not_stamp[of N xs rates] by (simp add: columns_def)
  then have last: "setitem ''last_updated'' (ObjCol (replicate (nrows df) (now_iso clk))) (df @ ?news)
      = (df @ ?news) @ [stamp clk (nrows df)]"
    by (simp add: setitem_fresh stamp_def)
  show ?thesis
    using ne lk fp conv all last nrows_append[OF nonempty, of ?news]
    by (simp add: transform_def log_progress_def)
qed

lemma map_of_prefix: "map_of df n = Some c \<Longrightarrow> map_of (df @ extra) n = Some c"
  by (simp add: map_add_Some_iff)

lemma map_of_suffix:
  "n \<notin> set (columns df) \<Longrightarrow> map_of (df @ extra) n = map_of extra n"
proof -
  assume "n \<notin> set (columns df)"
  then have "map_of df n = None" by (simp add: map_of_eq_None_iff columns_def)
  then show ?thesis by (simp add: map_add_def)
qed

lemma transform_again:
  assumes qt: "quote_table df" and ne: "\<not> df_empty df"
    and lk: "lower_keys raw [] = Inr rates"
    and fp: "find_pkr_col (columns df) = Some p"
    and base: "map_of df p = Some (NumCol xs)"
  shows "transform N clk2 path (RateColumn raw)
           (df @ new_columns N xs rates @ [stamp clk1 (nrows df)]) lg =
           (Inr (df @ new_columns N xs rates @ [stamp clk2 (nrows df)]),
            lg @ [''Transform: started''] @ map skip_message (skipped N rates)
               @ [''Transform: completed''])"
proof -
  let ?news = "new_columns N xs rates"
  let ?df1 = "df @ ?news @ [stamp clk1 (nrows df)]"
  have dist: "distinct (map fst rates)"
    using lower_keys_distinct[OF lk] by simp
  have low: "fst ` set rates \<subseteq> range lower"
    using lower_keys_lowered[OF lk] by simp
  from ne have nonempty: "df \<noteq> []" and rows: "nrows df \<noteq> 0"
    by (simp_all add: df_empty_def)
  have rows1: "nrows ?df1 = nrows df"
    by (rule nrows_append[OF nonempty])
  with rows have ne1: "\<not> df_empty ?df1"
    by (simp add: df_empty_def nonempty)
  have fp1: "find_pkr_col (columns ?df1) = Some p"
    using find_pkr_col_append[OF fp] by (simp add: columns_def)
  have base1: "map_of ?df1 p = Some (NumCol xs)"
    by (rule map_of_prefix[OF base])
  from fp have "p \<in> set (columns df)" by (auto dest: find_pkr_col_Some)
  with qt have "is_code p" by (rule quote_table_columns)
  then have fresh: "p \<notin> new_col ` fst ` set rates"
    using is_code_not_new_col by auto
  have conv: "convert N p rates ?df1 (lg @ [''Transform: started'']) =
      (Inr (set_all ?news ?df1), (lg @ [''Transform: started'']) @ map skip_message (skipped N rates))"
    by (rule convert_numeric[OF base1 fresh])
  have dn: "distinct (map fst ?news)"
    using distinct_new_columns[OF dist low, of N xs] by (simp add: columns_def)
  have present: "list_all (\<lambda>(n, c). map_of ?df1 n = Some c) ?news"
  proof -
    { fix n c assume mem: "(n, c) \<in> set ?news"
      then have "n \<in> set (columns ?news)" by (force simp: columns_def)
      with new_columns_disjoint[OF qt, of N xs rates] have "n \<notin> set (columns df)" by auto
      then have "map_of ?df1 n = map_of (?news @ [stamp clk1 (nrows df)]) n"
        by (rule map_of_suffix)
      moreover from dn mem have "map_of (?news @ [stamp clk1 (nrows df)]) n = Some c"
        by (simp add: map_add_Some_iff)
      ultimately have "map_of ?df1 n = Some c" by simp }
    then show ?thesis by (auto simp: list_all_iff)
  qed
  have same: "set_all ?news ?df1 = ?df1"
    by (rule set_all_same[OF present])
  have "''last_updated'' \<notin> set (columns df)"
    using quote_table_columns[OF qt] is_code_not_last_updated by blast
  then have "''last_updated'' \<notin> set (columns (df @ ?news))"
    using new_columns_not_stamp[of N xs rates] by (simp add: columns_def)
  then have last: "setitem ''last_updated'' (ObjCol (replicate (nrows df) (now_iso clk2)))
                     ((df @ ?news) @ [(''last_updated'', ObjCol (replicate (nrows df) (now_iso clk1)))])
      = (df @ ?news) @ [stamp clk2 (nrows df)]"
    unfolding stamp_def by (rule setitem_last)
  show ?thesis
    using ne1 lk fp1 conv same last rows1
    by (simp add: transform_def log_progress_def stamp_def)
qed

lemma getitem_Inr: "getitem df n = Inr c \<longleftrightarrow> map_of df n = Some c"
  by (simp add: getitem_def split: option.splits)


lemma new_columns_all_invalid:
  "list_all (\<lambda>(cur, v). to_float N v = None) rates \<Longrightarrow> new_columns N xs rates = []"
  by (induction rates) auto


subsection \<open>Where the run returns\<close>

text \<open>
  An assignment to a name the frame already has replaces that column where it stands.
  A quote table has no column named like a derived column or like the time stamp, so on
  a quote table every assignment of \<^verbatim>\<open>transform\<close> appends.
\<close>

lemma setitem_present:
  "name \<in> set (columns df) \<Longrightarrow>
     columns (setitem name col df) = columns df \<and> map_of (setitem name col df) name = Some col"
  by (simp add: setitem_def columns_def update_keys update_conv')

text \<open>
  On a quote table \<^verbatim>\<open>transform\<close> returns a frame whenever the labels of the rate file
  are strings.
\<close>

lemma transform_returns:
  assumes "quote_table df" and "rate_table raw"
  shows "\<exists>df' lg'. transform N clk path (RateColumn raw) df lg = (Inr df', lg')"
proof (cases "df_empty df")
  case True
  then show ?thesis by (simp add: transform_def)
next
  case ne: False
  from lower_keys_ok[OF assms(2)] obtain rates where lk: "lower_keys raw [] = Inr rates"
    by blast
  show ?thesis
  proof (cases "find_pkr_col (columns df)")
    case None
    with ne lk show ?thesis by (simp add: transform_def)
  next
    case fp: (Some p)
    from quote_table_base[OF assms(1) fp]
    obtain xs where base: "map_of df p = Some (NumCol xs)" by blast
    from transform_quote_table[OF assms(1) ne lk fp base, of N clk path lg]
    show ?thesis by blast
  qed
qed

subsection \<open>The ASCII instance is the model above\<close>

lemma lower_keys_with_ascii: "lower_keys_with ascii_casing raw acc = lower_keys raw acc"
  by (induction raw acc rule: lower_keys.induct) (simp_all add: ascii_casing_def)

lemma find_pkr_col_with_ascii: "find_pkr_col_with ascii_casing cs = find_pkr_col cs"
  by (induction cs) (simp_all add: ascii_casing_def)

lemma convert_with_ascii: "convert_with ascii_casing N p rates df lg = convert N p rates df lg"
  by (induction N p rates df lg rule: convert.induct)
     (simp_all add: new_col_with_def new_col_def ascii_casing_def split: option.splits sum.splits)

lemma transform_with_ascii:
  "transform_with ascii_casing N clk path file df lg = transform N clk path file df lg"
  unfolding transform_with_def transform_def lower_keys_with_ascii find_pkr_col_with_ascii
    convert_with_ascii
  by (rule refl)

subsection \<open>Assignments in sequence\<close>





subsection \<open>Transform with any case mapping\<close>


















lemma lower_code: "is_code s \<Longrightarrow> lower s = s"
proof -
  have "is_lower c \<Longrightarrow> lower_char c = c" for c
    by (simp add: lower_char_def is_upper_def is_lower_def)
  then show "is_code s \<Longrightarrow> lower s = s"
    by (simp add: is_code_def lower_def list_all_iff map_idI)
qed


lemma fixes_codes_ascii: "fixes_codes ascii_casing"
  by (simp add: fixes_codes_def ascii_casing_def lower_code)

section \<open>The claims\<close>




text \<open>
  C2. The claim is that \<^verbatim>\<open>transform\<close> returns a table for every quote table and every
  content of the rate file, and that no error leaves the pipeline. A rate file with a row
  whose currency name is blank gives a dictionary with the label NaN; line 80 calls
  \<^verbatim>\<open>lower\<close> on it outside of any \<^verbatim>\<open>try\<close>, and the AttributeError leaves \<^verbatim>\<open>transform\<close>
  and \<^verbatim>\<open>run_etl\<close>: the run below returns no table, and the database is not written.
\<close>

theorem run_etl_raises_on_blank_currency:
  "run_etl N clk (Fetched [(''crypto'', ObjCol [''bitcoin'']), (''pkr'', NumCol [x])])
      (RateColumn [(LStr ''USD'', RNum r), (LNaN, RNum r')]) eng db lg
   = (Inl AttributeError, db,
      lg @ [''Extract: started'', ''Extract: completed successfully'', ''Transform: started''])"
  by (simp add: run_etl_def extract_df_def transform_def df_empty_def log_progress_def)

text \<open>
  C3. For an empty frame \<^verbatim>\<open>transform\<close> returns the frame itself, whatever the rate file,
  and \<^verbatim>\<open>load_to_sqlite\<close> logs that it aborted and returns the database as it was.
\<close>

theorem empty_table_passes_through:
  assumes "df_empty df"
  shows "fst (transform N clk path file df lg) = Inr df
         \<and> load_to_sqlite eng db_name table_name df db lg2
             = (db, lg2 @ [''Load: started'', ''Load: aborted (empty DataFrame)''])"
  using assms by (simp add: transform_def load_to_sqlite_def log_progress_def)

theorem empty_table_passes_through_witness:
  "df_empty no_rows
   \<and> fst (transform decimal karachi_clock EXCHANGE_CSV
             (RateColumn [(LStr ''USD'', RNum (36 / 10000))]) no_rows []) = Inr no_rows
   \<and> load_to_sqlite Writes DB_NAME TABLE_NAME no_rows [(TABLE_NAME, quotes)] []
        = ([(TABLE_NAME, quotes)], [] @ [''Load: started'', ''Load: aborted (empty DataFrame)''])"
proof -
  have h: "df_empty no_rows" by (simp add: df_empty_def no_rows_def)
  from empty_table_passes_through[OF h] h show ?thesis by blast
qed

text \<open>
  C4. For a non-empty frame, when the rate file is missing or reading it raises,
  \<^verbatim>\<open>transform\<close> returns the frame itself: no column \<^verbatim>\<open>price_in_*\<close> and no column
  \<^verbatim>\<open>last_updated\<close> is added.
\<close>

theorem missing_rate_file_returns_input:
  assumes "\<not> df_empty df"
  shows "fst (transform N clk path NoFile df lg) = Inr df
         \<and> fst (transform N clk path (ReadError e) df lg) = Inr df"
  using assms by (simp add: transform_def)

theorem missing_rate_file_returns_input_witness:
  "\<not> df_empty quotes
   \<and> fst (transform decimal karachi_clock EXCHANGE_CSV NoFile quotes []) = Inr quotes
   \<and> fst (transform decimal karachi_clock EXCHANGE_CSV
             (ReadError ''No columns to parse from file'') quotes []) = Inr quotes"
proof -
  have h: "\<not> df_empty quotes" by (simp add: df_empty_def quotes_def)
  from missing_rate_file_returns_input[OF h] h show ?thesis by blast
qed






text \<open>
  C7. For every quote table and every rate file, \<^verbatim>\<open>transform\<close> applied to its own
  result, with the same rate file, gives what one application gives, in every column
  except \<^verbatim>\<open>last_updated\<close> (the two calls read the clock at different times).
\<close>

theorem transform_twice_same_but_stamp:
  assumes "quote_table df"
  shows "map_sum id drop_stamp (fst (transform_twice N clk1 clk2 path file df lg))
           = map_sum id drop_stamp (fst (transform N clk1 path file df lg))"
proof (cases "df_empty df")
  case True
  then show ?thesis by (simp add: transform_twice_def transform_def)
next
  case ne: False
  show ?thesis
  proof (cases "file")
    case NoFile
    with ne show ?thesis by (simp add: transform_twice_def transform_def)
  next
    case (ReadError e)
    with ne show ?thesis by (simp add: transform_twice_def transform_def)
  next
    case (RateColumn raw)
    show ?thesis
    proof (cases "lower_keys raw []")
      case (Inl e)
      with ne RateColumn show ?thesis by (simp add: transform_twice_def transform_def)
    next
      case lk: (Inr rates)
      show ?thesis
      proof (cases "find_pkr_col (columns df)")
        case None
        with ne RateColumn lk show ?thesis by (simp add: transform_twice_def transform_def)
      next
        case fp: (Some p)
        from quote_table_base[OF assms fp]
        obtain xs where base: "map_of df p = Some (NumCol xs)" by blast
        let ?body = "df @ new_columns N xs rates"
        have once: "transform N clk1 path file df lg =
            (Inr (?body @ [stamp clk1 (nrows df)]),
             lg @ [''Transform: started''] @ map skip_message (skipped N rates)
                @ [''Transform: completed''])"
          using transform_quote_table[OF assms ne lk fp base, of N clk1 path lg]
          by (simp add: RateColumn)
        have twice: "fst (transform_twice N clk1 clk2 path file df lg)
            = Inr (?body @ [stamp clk2 (nrows df)])"
          unfolding transform_twice_def once
          using transform_again[OF assms ne lk fp base, of N clk2 path clk1]
          by (simp add: RateColumn)
        show ?thesis
          unfolding twice once by (simp add: drop_stamp_def stamp_def)
      qed
    qed
  qed
qed

theorem transform_twice_same_but_stamp_witness:
  "quote_table quotes
   \<and> map_sum id drop_stamp (fst (transform_twice decimal karachi_clock naive_clock EXCHANGE_CSV
         (RateColumn [(LStr ''USD'', RNum (36 / 10000))]) quotes []))
     = map_sum id drop_stamp (fst (transform decimal karachi_clock EXCHANGE_CSV
         (RateColumn [(LStr ''USD'', RNum (36 / 10000))]) quotes []))
   \<and> fst (transform decimal karachi_clock EXCHANGE_CSV
         (RateColumn [(LStr ''USD'', RNum (36 / 10000))]) quotes [])
     = Inr [(''crypto'', ObjCol [''bitcoin'']), (''pkr'', NumCol [1000000]),
            (''price_in_USD'', NumCol [3600]),
            (''last_updated'', ObjCol [''2024-05-01T17:00:00.000000+05:00''])]"
proof -
  have h: "quote_table quotes" by code_simp
  have run: "fst (transform decimal karachi_clock EXCHANGE_CSV
         (RateColumn [(LStr ''USD'', RNum (36 / 10000))]) quotes [])
     = Inr [(''crypto'', ObjCol [''bitcoin'']), (''pkr'', NumCol [1000000]),
            (''price_in_USD'', NumCol [3600]),
            (''last_updated'', ObjCol [''2024-05-01T17:00:00.000000+05:00''])]"
    by code_simp
  from transform_twice_same_but_stamp[OF h] h run show ?thesis by blast
qed

text \<open>
  C8. On a non-empty quote table that passes the three checks, the columns of the input
  are the first columns of the result, with their cells unchanged, and each is found
  under its name in the result: the new columns come after them.
\<close>

theorem input_columns_preserved:
  assumes "quote_table df" and "\<not> df_empty df"
    and "lower_keys raw [] = Inr rates"
    and "find_pkr_col (columns df) = Some p"
  shows "\<exists>df' lg'. transform N clk path (RateColumn raw) df lg = (Inr df', lg')
           \<and> take (length df) df' = df
           \<and> (\<forall>n c. (n, c) \<in> set df \<longrightarrow> getitem df' n = Inr c)"
proof -
  from quote_table_base[OF assms(1) assms(4)]
  obtain xs where base: "map_of df p = Some (NumCol xs)" by blast
  let ?df' = "df @ new_columns N xs rates @ [stamp clk (nrows df)]"
  have keep: "getitem ?df' n = Inr c" if "(n, c) \<in> set df" for n c
  proof -
    from assms(1) that have "map_of df n = Some c" by (rule quote_table_lookup)
    then have "map_of ?df' n = Some c" by (rule map_of_prefix)
    then show ?thesis by (simp only: getitem_Inr)
  qed
  have "take (length df) ?df' = df" by simp
  with keep transform_quote_table[OF assms(1) assms(2) assms(3) assms(4) base, of N clk path lg]
  show ?thesis by blast
qed

theorem input_columns_preserved_witness:
  "quote_table quotes \<and> \<not> df_empty quotes
   \<and> lower_keys [(LStr ''USD'', RNum (36 / 10000))] [] = Inr [(''usd'', RNum (36 / 10000 :: rat))]
   \<and> find_pkr_col (columns quotes) = Some ''pkr''
   \<and> (\<exists>df' lg'. transform decimal karachi_clock EXCHANGE_CSV
                    (RateColumn [(LStr ''USD'', RNum (36 / 10000))]) quotes [] = (Inr df', lg')
         \<and> take (length quotes) df' = quotes
         \<and> getitem df' ''crypto'' = Inr (ObjCol [''bitcoin''])
         \<and> getitem df' ''pkr'' = Inr (NumCol [1000000]))"
proof -
  have h1: "quote_table quotes" by code_simp
  have h2: "\<not> df_empty quotes" by code_simp
  have h3: "lower_keys [(LStr ''USD'', RNum (36 / 10000))] [] = Inr [(''usd'', RNum (36 / 10000 :: rat))]"
    by code_simp
  have h4: "find_pkr_col (columns quotes) = Some ''pkr''" by code_simp
  have m1: "(''crypto'', ObjCol [''bitcoin'']) \<in> set quotes" by (simp add: quotes_def)
  have m2: "(''pkr'', NumCol [1000000]) \<in> set quotes" by (simp add: quotes_def)
  from input_columns_preserved[where N = decimal and clk = karachi_clock
      and path = EXCHANGE_CSV and lg = "[]", OF h1 h2 h3 h4]
  obtain df' lg' where run: "transform decimal karachi_clock EXCHANGE_CSV
                    (RateColumn [(LStr ''USD'', RNum (36 / 10000))]) quotes [] = (Inr df', lg')"
    and pre: "take (length quotes) df' = quotes"
    and keep: "\<And>n c. (n, c) \<in> set quotes \<Longrightarrow> getitem df' n = Inr c"
    by blast
  from run pre keep[OF m1] keep[OF m2] h1 h2 h3 h4 show ?thesis by blast
qed

text \<open>
  C9. The claim is that the column \<^verbatim>\<open>last_updated\<close> holds a time stamp in a fixed time
  zone. What holds: on a non-empty quote table that passes the three checks the result has
  as many rows as the input and its column \<^verbatim>\<open>last_updated\<close> holds one clock reading in
  every row, in ISO format: the time in Asia/Karachi when the module \<^verbatim>\<open>zoneinfo\<close> was
  imported, and the local time of the host, without a zone, when it was not (line 108).
  The third theorem is the run, without \<^verbatim>\<open>zoneinfo\<close>, whose stamp is not the Karachi
  time.
\<close>

theorem last_updated_is_one_clock_reading:
  assumes "quote_table df" and "\<not> df_empty df"
    and "lower_keys raw [] = Inr rates"
    and "find_pkr_col (columns df) = Some p"
  shows "\<exists>df' lg'. transform N clk path (RateColumn raw) df lg = (Inr df', lg')
           \<and> nrows df' = nrows df
           \<and> getitem df' ''last_updated''
               = Inr (ObjCol (replicate (nrows df)
                       (if zoneinfo clk then now_karachi clk else now_local clk)))"
proof -
  from quote_table_base[OF assms(1) assms(4)]
  obtain xs where base: "map_of df p = Some (NumCol xs)" by blast
  let ?news = "new_columns N xs rates"
  let ?df' = "df @ ?news @ [stamp clk (nrows df)]"
  from assms(2) have "df \<noteq> []" by (simp add: df_empty_def)
  then have rows: "nrows ?df' = nrows df" by (rule nrows_append)
  have "''last_updated'' \<notin> set (columns df)"
    using quote_table_columns[OF assms(1)] is_code_not_last_updated by blast
  moreover have "''last_updated'' \<notin> set (columns ?news)" by (rule new_columns_not_stamp)
  ultimately have "''last_updated'' \<notin> set (columns (df @ ?news))" by (simp add: columns_def)
  then have "map_of ((df @ ?news) @ [stamp clk (nrows df)]) ''last_updated''
               = map_of [stamp clk (nrows df) :: string \<times> 'a column] ''last_updated''"
    by (rule map_of_suffix)
  then have "map_of ?df' ''last_updated'' = Some (ObjCol (replicate (nrows df) (now_iso clk)))"
    by (simp add: stamp_def)
  then have "getitem ?df' ''last_updated''
               = Inr (ObjCol (replicate (nrows df)
                       (if zoneinfo clk then now_karachi clk else now_local clk)))"
    by (simp only: getitem_Inr now_iso_def)
  with rows transform_quote_table[OF assms(1) assms(2) assms(3) assms(4) base, of N clk path lg]
  show ?thesis by blast
qed

theorem last_updated_is_one_clock_reading_witness:
  "quote_table quotes \<and> \<not> df_empty quotes
   \<and> lower_keys [(LStr ''USD'', RNum (36 / 10000))] [] = Inr [(''usd'', RNum (36 / 10000 :: rat))]
   \<and> find_pkr_col (columns quotes) = Some ''pkr''
   \<and> (\<exists>df' lg'. transform decimal naive_clock EXCHANGE_CSV
                    (RateColumn [(LStr ''USD'', RNum (36 / 10000))]) quotes [] = (Inr df', lg')
         \<and> nrows df' = nrows quotes
         \<and> getitem df' ''last_updated'' = Inr (ObjCol [''2024-05-01T12:00:00.000000'']))"
proof -
  have h1: "quote_table quotes" by code_simp
  have h2: "\<not> df_empty quotes" by code_simp
  have h3: "lower_keys [(LStr ''USD'', RNum (36 / 10000))] [] = Inr [(''usd'', RNum (36 / 10000 :: rat))]"
    by code_simp
  have h4: "find_pkr_col (columns quotes) = Some ''pkr''" by code_simp
  have rows: "replicate (nrows quotes)
      (if zoneinfo naive_clock then now_karachi naive_clock else now_local naive_clock)
      = [''2024-05-01T12:00:00.000000'']" by code_simp
  from last_updated_is_one_clock_reading[where N = decimal and clk = naive_clock
      and path = EXCHANGE_CSV and lg = "[]", OF h1 h2 h3 h4]
  have "\<exists>df' lg'. transform decimal naive_clock EXCHANGE_CSV
                    (RateColumn [(LStr ''USD'', RNum (36 / 10000))]) quotes [] = (Inr df', lg')
         \<and> nrows df' = nrows quotes
         \<and> getitem df' ''last_updated'' = Inr (ObjCol [''2024-05-01T12:00:00.000000''])"
    unfolding rows .
  with h1 h2 h3 h4 show ?thesis by blast
qed

theorem last_updated_not_always_karachi:
  "\<not> (\<exists>df' lg'. transform decimal naive_clock EXCHANGE_CSV
                    (RateColumn [(LStr ''USD'', RNum (36 / 10000))]) quotes [] = (Inr df', lg')
         \<and> getitem df' ''last_updated''
             = Inr (ObjCol (replicate (nrows quotes) (now_karachi naive_clock))))"
proof -
  have run: "transform decimal naive_clock EXCHANGE_CSV
                    (RateColumn [(LStr ''USD'', RNum (36 / 10000))]) quotes []
     = (Inr [(''crypto'', ObjCol [''bitcoin'']), (''pkr'', NumCol [1000000]),
             (''price_in_USD'', NumCol [3600]),
             (''last_updated'', ObjCol [''2024-05-01T12:00:00.000000''])],
        [''Transform: started'', ''Transform: completed''])"
    by code_simp
  have col: "getitem [(''crypto'', ObjCol [''bitcoin'']), (''pkr'', NumCol [1000000 :: rat]),
             (''price_in_USD'', NumCol [3600]),
             (''last_updated'', ObjCol [''2024-05-01T12:00:00.000000''])] ''last_updated''
      \<noteq> Inr (ObjCol (replicate (nrows quotes) (now_karachi naive_clock)))"
    by code_simp
  show ?thesis unfolding run using col by simp
qed

text \<open>
  C10. On a non-empty quote table with a PKR column, when the rate file loaded and no
  rate of it is a float, the result is the input followed by the column \<^verbatim>\<open>last_updated\<close>
  alone (with a missing file the result is the input itself, see C4).
\<close>

theorem all_rates_invalid_only_stamp:
  assumes "quote_table df" and "\<not> df_empty df"
    and "lower_keys raw [] = Inr rates"
    and "find_pkr_col (columns df) = Some p"
    and "list_all (\<lambda>(cur, v). to_float N v = None) rates"
  shows "fst (transform N clk path (RateColumn raw) df lg)
           = Inr (df @ [(''last_updated'', ObjCol (replicate (nrows df) (now_iso clk)))])"
proof -
  from quote_table_base[OF assms(1) assms(4)]
  obtain xs where base: "map_of df p = Some (NumCol xs)" by blast
  show ?thesis
    unfolding transform_quote_table[OF assms(1) assms(2) assms(3) assms(4) base]
    by (simp add: new_columns_all_invalid[OF assms(5)] stamp_def)
qed

theorem all_rates_invalid_only_stamp_witness:
  "quote_table quotes \<and> \<not> df_empty quotes
   \<and> lower_keys [(LStr ''USD'', RStr ''abc''), (LStr ''EUR'', RStr ''n/a'')] []
        = Inr [(''usd'', RStr ''abc''), (''eur'', RStr ''n/a'' :: rat rate_value)]
   \<and> find_pkr_col (columns quotes) = Some ''pkr''
   \<and> to_float decimal (RStr ''abc'') = None \<and> to_float decimal (RStr ''n/a'') = None
   \<and> fst (transform decimal karachi_clock EXCHANGE_CSV
             (RateColumn [(LStr ''USD'', RStr ''abc''), (LStr ''EUR'', RStr ''n/a'')]) quotes [])
        = Inr (quotes @ [(''last_updated'', ObjCol [''2024-05-01T17:00:00.000000+05:00''])])"
proof -
  have h1: "quote_table quotes" by code_simp
  have h2: "\<not> df_empty quotes" by code_simp
  have h3: "lower_keys [(LStr ''USD'', RStr ''abc''), (LStr ''EUR'', RStr ''n/a'')] []
        = Inr [(''usd'', RStr ''abc''), (''eur'', RStr ''n/a'' :: rat rate_value)]"
    by code_simp
  have h4: "find_pkr_col (columns quotes) = Some ''pkr''" by code_simp
  have a: "to_float decimal (RStr ''abc'') = None" by code_simp
  have b: "to_float decimal (RStr ''n/a'') = None" by code_simp
  from a b have h5: "list_all (\<lambda>(cur, v). to_float decimal v = None)
      [(''usd'', RStr ''abc''), (''eur'', RStr ''n/a'')]" by simp
  have rows: "replicate (nrows quotes) (now_iso karachi_clock)
      = [''2024-05-01T17:00:00.000000+05:00'']" by code_simp
  from all_rates_invalid_only_stamp[OF h1 h2 h3 h4 h5, of karachi_clock EXCHANGE_CSV "[]"]
  have "fst (transform decimal karachi_clock EXCHANGE_CSV
             (RateColumn [(LStr ''USD'', RStr ''abc''), (LStr ''EUR'', RStr ''n/a'')]) quotes [])
        = Inr (quotes @ [(''last_updated'', ObjCol [''2024-05-01T17:00:00.000000+05:00''])])"
    unfolding rows .
  with h1 h2 h3 h4 a b show ?thesis by blast
qed

end
